theory Spec2Isabelle
  imports Complex_Main
begin

section \<open>Strings\<close>

text \<open>
  A Python \<open>str\<close> is modelled as a \<open>string\<close> whose characters are the code points
  below 256.  \<open>is_space\<close> is \<open>str.isspace\<close> on one character, \<open>lower_char\<close> is
  \<open>str.lower\<close> on one character, both restricted to that range.
\<close>

definition is_space :: "char \<Rightarrow> bool" where
  "is_space c = ((of_char c :: nat) \<in> {9, 10, 11, 12, 13, 28, 29, 30, 31, 32, 133, 160})"

definition is_digit :: "char \<Rightarrow> bool" where
  "is_digit c = (48 \<le> (of_char c :: nat) \<and> (of_char c :: nat) \<le> 57)"

definition digit_val :: "char \<Rightarrow> nat" where
  "digit_val c = (of_char c :: nat) - 48"

definition is_upper :: "char \<Rightarrow> bool" where
  "is_upper c = (let n = (of_char c :: nat) in
     (65 \<le> n \<and> n \<le> 90) \<or> (192 \<le> n \<and> n \<le> 214) \<or> (216 \<le> n \<and> n \<le> 222))"

definition lower_char :: "char \<Rightarrow> char" where
  "lower_char c = (if is_upper c then char_of ((of_char c :: nat) + 32) else c)"

definition lower :: "string \<Rightarrow> string" where
  "lower s = map lower_char s"

definition lstrip :: "string \<Rightarrow> string" where
  "lstrip s = dropWhile is_space s"

definition rstrip :: "string \<Rightarrow> string" where
  "rstrip s = rev (dropWhile is_space (rev s))"

definition strip :: "string \<Rightarrow> string" where
  "strip s = rstrip (lstrip s)"

definition startswith :: "string \<Rightarrow> string \<Rightarrow> bool" where
  "startswith s p = (take (length p) s = p)"

definition nat_of_digits :: "string \<Rightarrow> nat" where
  "nat_of_digits ds = foldl (\<lambda>n c. 10 * n + digit_val c) 0 ds"

text \<open>
  \<open>int(s)\<close> on a string, base 10: surrounding whitespace is stripped, one sign is
  allowed, and single underscores may separate digits.  \<open>None\<close> is \<open>ValueError\<close>.
\<close>

fun int_body :: "string \<Rightarrow> bool" where
  "int_body [] = False"
| "int_body [c] = is_digit c"
| "int_body (c # d # r) =
     (is_digit c \<and> (if d = CHR ''_'' then int_body r else int_body (d # r)))"

definition int_unsigned :: "string \<Rightarrow> int option" where
  "int_unsigned b =
     (if int_body b then Some (int (nat_of_digits (filter (\<lambda>c. c \<noteq> CHR ''_'') b))) else None)"

definition py_int :: "string \<Rightarrow> int option" where
  "py_int s =
     (case strip s of
        [] \<Rightarrow> None
      | c # r \<Rightarrow>
          if c = CHR ''-'' then map_option uminus (int_unsigned r)
          else if c = CHR ''+'' then int_unsigned r
          else int_unsigned (c # r))"

section \<open>Decimal numbers\<close>

text \<open>
  Python's \<open>decimal.Decimal\<close>: a finite number is a sign, a coefficient and an
  exponent (value \<open>(-1)^sign * coefficient * 10^exponent\<close>); the special values are the
  two infinities and the quiet and signaling NaNs, which carry a sign and a payload.
\<close>

datatype decimal =
    Finite bool nat int
  | Infinity bool
  | NaN bool bool nat

datatype error = InvalidOperation | DivisionByZero | Overflow | KeyError

fun is_finite :: "decimal \<Rightarrow> bool" where
  "is_finite (Finite s c e) = True"
| "is_finite _ = False"

fun val :: "decimal \<Rightarrow> rat" where
  "val (Finite s c e) = (if s then - 1 else 1) * of_nat c * (10 powi e)"
| "val _ = 0"

subsection \<open>Construction from a string\<close>

text \<open>
  \<open>Decimal(s)\<close>: the string is stripped, underscores are removed, and the rest must
  match, case-insensitively, an optional sign followed by a number with an optional
  fraction and an optional exponent, or \<open>Inf\<close>/\<open>Infinity\<close>, or \<open>NaN\<close>/\<open>sNaN\<close> with
  diagnostic digits.  The construction is exact: no rounding to the context precision.
  \<open>None\<close> is the exception \<open>InvalidOperation\<close> that the constructor raises.
\<close>

definition parse_exp :: "string \<Rightarrow> int option" where
  "parse_exp r =
     (case r of
        [] \<Rightarrow> Some 0
      | c # t \<Rightarrow>
          if c \<noteq> CHR ''e'' then None
          else (case t of
                  [] \<Rightarrow> None
                | d # u \<Rightarrow>
                    if d = CHR ''-'' then
                      (if u \<noteq> [] \<and> list_all is_digit u then Some (- int (nat_of_digits u)) else None)
                    else if d = CHR ''+'' then
                      (if u \<noteq> [] \<and> list_all is_digit u then Some (int (nat_of_digits u)) else None)
                    else
                      (if list_all is_digit t then Some (int (nat_of_digits t)) else None)))"

definition parse_number :: "bool \<Rightarrow> string \<Rightarrow> decimal option" where
  "parse_number sg r =
     (let ip = takeWhile is_digit r;
          r1 = dropWhile is_digit r;
          has_dot = (r1 \<noteq> [] \<and> hd r1 = CHR ''.'');
          fp = (if has_dot then takeWhile is_digit (tl r1) else []);
          r2 = (if has_dot then dropWhile is_digit (tl r1) else r1)
      in if ip = [] \<and> fp = [] then None
         else (case parse_exp r2 of
                 None \<Rightarrow> None
               | Some x \<Rightarrow> Some (Finite sg (nat_of_digits (ip @ fp)) (x - int (length fp)))))"

definition parse_unsigned :: "bool \<Rightarrow> string \<Rightarrow> decimal option" where
  "parse_unsigned sg r =
     (if r = ''inf'' \<or> r = ''infinity'' then Some (Infinity sg)
      else if take 3 r = ''nan'' \<and> list_all is_digit (drop 3 r)
        then Some (NaN False sg (nat_of_digits (drop 3 r)))
      else if take 4 r = ''snan'' \<and> list_all is_digit (drop 4 r)
        then Some (NaN True sg (nat_of_digits (drop 4 r)))
      else parse_number sg r)"

definition parse_signed :: "string \<Rightarrow> decimal option" where
  "parse_signed t =
     (case t of
        [] \<Rightarrow> None
      | c # r \<Rightarrow>
          if c = CHR ''-'' then parse_unsigned True r
          else if c = CHR ''+'' then parse_unsigned False r
          else parse_unsigned False t)"

definition Decimal_of_str :: "string \<Rightarrow> decimal option" where
  "Decimal_of_str s = parse_signed (lower (filter (\<lambda>c. c \<noteq> CHR ''_'') (strip s)))"

definition Decimal_of_int :: "int \<Rightarrow> decimal" where
  "Decimal_of_int i = Finite (i < 0) (nat \<bar>i\<bar>) 0"

subsection \<open>The arithmetic context\<close>

text \<open>
  The default context: precision 28, rounding \<open>ROUND_HALF_EVEN\<close>,
  \<open>Emax = 999999\<close>, \<open>Emin = -999999\<close>, \<open>clamp = 0\<close>, with the traps
  \<open>InvalidOperation\<close>, \<open>DivisionByZero\<close> and \<open>Overflow\<close> enabled, so that these
  three signals are raised as exceptions (\<open>Inl\<close>) and every other signal is silent.
\<close>

definition prec :: nat where "prec = 28"
definition Emax :: int where "Emax = 999999"
definition Emin :: int where "Emin = - 999999"
definition Etiny :: int where "Etiny = Emin - int prec + 1"
definition Etop :: int where "Etop = Emax - int prec + 1"

definition ebind :: "error + 'a \<Rightarrow> ('a \<Rightarrow> error + 'b) \<Rightarrow> error + 'b" where
  "ebind m f = (case m of Inl e \<Rightarrow> Inl e | Inr x \<Rightarrow> f x)"

text \<open>\<open>ndigits c\<close> is \<open>len(str(c))\<close>, the length of the coefficient's digit string.\<close>

fun ndigits :: "nat \<Rightarrow> nat" where
  "ndigits n = (if n < 10 then 1 else Suc (ndigits (n div 10)))"

declare ndigits.simps [simp del]

text \<open>
  \<open>round_half_even c k\<close> drops the last \<open>k\<close> digits of \<open>c\<close>, rounding to nearest and
  an exact half to the even neighbour.
\<close>

definition round_half_even :: "nat \<Rightarrow> nat \<Rightarrow> nat" where
  "round_half_even c k =
     (let q = c div 10 ^ k; r = c mod 10 ^ k
      in if 2 * r > 10 ^ k \<or> (2 * r = 10 ^ k \<and> odd q) then q + 1 else q)"

text \<open>\<open>fix_ctx\<close> is \<open>Decimal._fix\<close>: round the result of an operation to the context.\<close>

definition fix_nan :: "decimal \<Rightarrow> decimal" where
  "fix_nan d = (case d of NaN sn s p \<Rightarrow> NaN sn s (p mod 10 ^ prec) | _ \<Rightarrow> d)"

definition fix_ctx :: "decimal \<Rightarrow> error + decimal" where
  "fix_ctx d =
     (case d of
        Finite s c e \<Rightarrow>
          if c = 0 then Inr (Finite s 0 (min (max e Etiny) Emax))
          else
            let exp_min0 = int (ndigits c) + e - int prec in
            if exp_min0 > Etop then Inl Overflow
            else
              let exp_min = max exp_min0 Etiny in
              if e < exp_min then
                let coeff = round_half_even c (nat (exp_min - e)) in
                if ndigits coeff > prec then
                  (if exp_min + 1 > Etop then Inl Overflow
                   else Inr (Finite s (coeff div 10) (exp_min + 1)))
                else Inr (Finite s coeff exp_min)
              else Inr d
      | Infinity s \<Rightarrow> Inr d
      | NaN sn s p \<Rightarrow> Inr (fix_nan d))"

text \<open>
  \<open>check_nans\<close> is \<open>Decimal._check_nans\<close>: a signaling NaN raises, a quiet NaN is the
  result of the operation; \<open>None\<close> when neither operand is a NaN.
\<close>

fun is_nan :: "decimal \<Rightarrow> bool" where
  "is_nan (NaN sn s p) = True"
| "is_nan _ = False"

fun is_snan :: "decimal \<Rightarrow> bool" where
  "is_snan (NaN sn s p) = sn"
| "is_snan _ = False"

fun is_inf :: "decimal \<Rightarrow> bool" where
  "is_inf (Infinity s) = True"
| "is_inf _ = False"

fun is_zero :: "decimal \<Rightarrow> bool" where
  "is_zero (Finite s c e) = (c = 0)"
| "is_zero _ = False"

fun sign_of :: "decimal \<Rightarrow> bool" where
  "sign_of (Finite s c e) = s"
| "sign_of (Infinity s) = s"
| "sign_of (NaN sn s p) = s"

fun copy_negate :: "decimal \<Rightarrow> decimal" where
  "copy_negate (Finite s c e) = Finite (\<not> s) c e"
| "copy_negate (Infinity s) = Infinity (\<not> s)"
| "copy_negate (NaN sn s p) = NaN sn (\<not> s) p"

fun copy_abs :: "decimal \<Rightarrow> decimal" where
  "copy_abs (Finite s c e) = Finite False c e"
| "copy_abs (Infinity s) = Infinity False"
| "copy_abs (NaN sn s p) = NaN sn False p"

definition check_nans :: "decimal \<Rightarrow> decimal \<Rightarrow> (error + decimal) option" where
  "check_nans a b =
     (if is_snan a \<or> is_snan b then Some (Inl InvalidOperation)
      else if is_nan a then Some (Inr (fix_nan a))
      else if is_nan b then Some (Inr (fix_nan b))
      else None)"

definition check_nans1 :: "decimal \<Rightarrow> (error + decimal) option" where
  "check_nans1 a =
     (if is_snan a then Some (Inl InvalidOperation)
      else if is_nan a then Some (Inr (fix_nan a))
      else None)"

subsection \<open>Addition and subtraction\<close>

text \<open>
  \<open>normalize\<close> is \<open>_normalize\<close>: bring two nonzero operands to one exponent; an
  operand too small to influence the rounded result is replaced by a sticky unit.
\<close>

definition normalize_ops :: "nat \<Rightarrow> int \<Rightarrow> nat \<Rightarrow> int \<Rightarrow> nat \<times> nat \<times> int" where
  "normalize_ops c1 e1 c2 e2 =
     (if e1 < e2 then
        (let ex = e2 + min (- 1) (int (ndigits c2) - int prec - 2);
             small = (int (ndigits c1) + e1 - 1 < ex);
             oc = (if small then 1 else c1);
             oe = (if small then ex else e1)
         in (oc, c2 * 10 ^ nat (e2 - oe), oe))
      else
        (let ex = e1 + min (- 1) (int (ndigits c1) - int prec - 2);
             small = (int (ndigits c2) + e2 - 1 < ex);
             oc = (if small then 1 else c2);
             oe = (if small then ex else e2)
         in (c1 * 10 ^ nat (e1 - oe), oc, oe)))"

definition add_finite :: "bool \<Rightarrow> nat \<Rightarrow> int \<Rightarrow> bool \<Rightarrow> nat \<Rightarrow> int \<Rightarrow> error + decimal" where
  "add_finite s1 c1 e1 s2 c2 e2 =
     (let ex = min e1 e2 in
      if c1 = 0 \<and> c2 = 0 then fix_ctx (Finite (s1 \<and> s2) 0 ex)
      else if c1 = 0 then
        (let ex' = max ex (e2 - int prec - 1) in fix_ctx (Finite s2 (c2 * 10 ^ nat (e2 - ex')) ex'))
      else if c2 = 0 then
        (let ex' = max ex (e1 - int prec - 1) in fix_ctx (Finite s1 (c1 * 10 ^ nat (e1 - ex')) ex'))
      else
        (case normalize_ops c1 e1 c2 e2 of (n1, n2, ne) \<Rightarrow>
           if s1 \<noteq> s2 then
             (if n1 = n2 then fix_ctx (Finite False 0 ex)
              else if n1 < n2 then fix_ctx (Finite s2 (n2 - n1) ne)
              else fix_ctx (Finite s1 (n1 - n2) ne))
           else fix_ctx (Finite s1 (n1 + n2) ne)))"

definition dec_add :: "decimal \<Rightarrow> decimal \<Rightarrow> error + decimal" where
  "dec_add a b =
     (case check_nans a b of
        Some r \<Rightarrow> r
      | None \<Rightarrow>
          (case (a, b) of
             (Infinity s1, Infinity s2) \<Rightarrow> if s1 \<noteq> s2 then Inl InvalidOperation else Inr a
           | (Infinity s1, _) \<Rightarrow> Inr a
           | (_, Infinity s2) \<Rightarrow> Inr b
           | (Finite s1 c1 e1, Finite s2 c2 e2) \<Rightarrow> add_finite s1 c1 e1 s2 c2 e2
           | _ \<Rightarrow> Inl InvalidOperation))"

definition dec_sub :: "decimal \<Rightarrow> decimal \<Rightarrow> error + decimal" where
  "dec_sub a b =
     (case check_nans a b of
        Some r \<Rightarrow> r
      | None \<Rightarrow> dec_add a (copy_negate b))"

subsection \<open>Multiplication and division\<close>

definition dec_mul :: "decimal \<Rightarrow> decimal \<Rightarrow> error + decimal" where
  "dec_mul a b =
     (case check_nans a b of
        Some r \<Rightarrow> r
      | None \<Rightarrow>
          (let rs = (sign_of a \<noteq> sign_of b) in
           case (a, b) of
             (Infinity s1, _) \<Rightarrow> if is_zero b then Inl InvalidOperation else Inr (Infinity rs)
           | (_, Infinity s2) \<Rightarrow> if is_zero a then Inl InvalidOperation else Inr (Infinity rs)
           | (Finite s1 c1 e1, Finite s2 c2 e2) \<Rightarrow> fix_ctx (Finite rs (c1 * c2) (e1 + e2))
           | _ \<Rightarrow> Inl InvalidOperation))"

text \<open>
  The exact quotient is brought towards the ideal exponent by removing trailing zeros.
\<close>

function strip_zeros :: "nat \<Rightarrow> int \<Rightarrow> int \<Rightarrow> nat \<times> int" where
  "strip_zeros c e ideal =
     (if e < ideal \<and> c mod 10 = 0 \<and> c \<noteq> 0 then strip_zeros (c div 10) (e + 1) ideal
      else (c, e))"
  by pat_completeness auto
termination
  by (relation "measure (\<lambda>(c, e, ideal). c)") auto

declare strip_zeros.simps [simp del]

definition div_finite :: "bool \<Rightarrow> nat \<Rightarrow> int \<Rightarrow> nat \<Rightarrow> int \<Rightarrow> error + decimal" where
  "div_finite sg c1 e1 c2 e2 =
     (if c1 = 0 then fix_ctx (Finite sg 0 (e1 - e2))
      else
        let shift = int (ndigits c2) - int (ndigits c1) + int prec + 1;
            ex = e1 - e2 - shift;
            n = (if shift \<ge> 0 then c1 * 10 ^ nat shift else c1);
            d = (if shift \<ge> 0 then c2 else c2 * 10 ^ nat (- shift));
            q = n div d;
            r = n mod d
        in if r \<noteq> 0 then fix_ctx (Finite sg (if q mod 5 = 0 then q + 1 else q) ex)
           else (case strip_zeros q ex (e1 - e2) of (q', ex') \<Rightarrow> fix_ctx (Finite sg q' ex')))"

definition dec_div :: "decimal \<Rightarrow> decimal \<Rightarrow> error + decimal" where
  "dec_div a b =
     (case check_nans a b of
        Some r \<Rightarrow> r
      | None \<Rightarrow>
          (let sg = (sign_of a \<noteq> sign_of b) in
           case (a, b) of
             (Infinity s1, Infinity s2) \<Rightarrow> Inl InvalidOperation
           | (Infinity s1, _) \<Rightarrow> Inr (Infinity sg)
           | (_, Infinity s2) \<Rightarrow> Inr (Finite sg 0 Etiny)
           | (Finite s1 c1 e1, Finite s2 c2 e2) \<Rightarrow>
               if c2 = 0 then (if c1 = 0 then Inl InvalidOperation else Inl DivisionByZero)
               else div_finite sg c1 e1 c2 e2
           | _ \<Rightarrow> Inl InvalidOperation))"

subsection \<open>Absolute value and comparison\<close>

definition dec_abs :: "decimal \<Rightarrow> error + decimal" where
  "dec_abs a =
     (case check_nans1 a of
        Some r \<Rightarrow> r
      | None \<Rightarrow> fix_ctx (copy_abs a))"

text \<open>
  \<open>dec_cmp\<close> is \<open>Decimal._cmp\<close> on two operands that are not NaNs: \<open>-1\<close>, \<open>0\<close> or
  \<open>1\<close>.  Two finite numbers are compared by value, after scaling both coefficients to
  the smaller exponent.
\<close>

definition signed_coeff :: "bool \<Rightarrow> nat \<Rightarrow> int" where
  "signed_coeff s c = (if s then - int c else int c)"

fun inf_rank :: "decimal \<Rightarrow> int" where
  "inf_rank (Infinity s) = (if s then - 1 else 1)"
| "inf_rank _ = 0"

definition sgn3 :: "int \<Rightarrow> int" where
  "sgn3 i = (if i < 0 then - 1 else if i = 0 then 0 else 1)"

definition dec_cmp :: "decimal \<Rightarrow> decimal \<Rightarrow> int" where
  "dec_cmp a b =
     (case (a, b) of
        (Finite s1 c1 e1, Finite s2 c2 e2) \<Rightarrow>
          (let m = min e1 e2 in
           sgn3 (signed_coeff s1 c1 * 10 ^ nat (e1 - m) - signed_coeff s2 c2 * 10 ^ nat (e2 - m)))
      | _ \<Rightarrow> sgn3 (inf_rank a - inf_rank b))"

definition dec_lt :: "decimal \<Rightarrow> decimal \<Rightarrow> error + bool" where
  "dec_lt a b = (if is_nan a \<or> is_nan b then Inl InvalidOperation else Inr (dec_cmp a b < 0))"

definition dec_gt :: "decimal \<Rightarrow> decimal \<Rightarrow> error + bool" where
  "dec_gt a b = (if is_nan a \<or> is_nan b then Inl InvalidOperation else Inr (dec_cmp a b > 0))"

section \<open>The format resolver\<close>

type_synonym format = "decimal \<times> decimal"

text \<open>\<open>INCH = Decimal('25.4')\<close> and \<open>PT = Decimal(1)/72 * INCH\<close>.\<close>

definition INCH :: decimal where
  "INCH = Finite False 254 (- 1)"

definition PT :: "error + decimal" where
  "PT = ebind (dec_div (Decimal_of_int 1) (Decimal_of_int 72)) (\<lambda>q. dec_mul q INCH)"

definition ISO216_VALUES :: "char \<Rightarrow> (error + decimal) option" where
  "ISO216_VALUES c =
     (if c = CHR ''a'' then Some (dec_div (Decimal_of_int 1) (Decimal_of_int 4))
      else if c = CHR ''b'' then Some (dec_div (Decimal_of_int 1) (Decimal_of_int 2))
      else if c = CHR ''c'' then Some (dec_div (Decimal_of_int 3) (Decimal_of_int 8))
      else None)"

text \<open>
  \<open>iso216_format\<close>.  The power operator of the decimal library, \<open>Decimal.__pow__\<close>,
  is the parameter \<open>pw\<close>.  \<open>iso216_exponent series n\<close> is the exponent
  \<open>_ISO216_VALUES[series] - n/Decimal(2)\<close>, and \<open>iso216_dim pw series n\<close> is
  \<open>Decimal(2) ** exponent * 1000\<close>: the height for \<open>n = size\<close>, the width for
  \<open>n = size + 1\<close>.
\<close>

definition iso216_exponent :: "char \<Rightarrow> int \<Rightarrow> error + decimal" where
  "iso216_exponent series n =
     (case ISO216_VALUES series of
        None \<Rightarrow> Inl KeyError
      | Some b \<Rightarrow>
          ebind b (\<lambda>base.
          ebind (dec_div (Decimal_of_int n) (Decimal_of_int 2)) (\<lambda>half.
          dec_sub base half)))"

definition iso216_dim ::
  "(decimal \<Rightarrow> decimal \<Rightarrow> error + decimal) \<Rightarrow> char \<Rightarrow> int \<Rightarrow> error + decimal" where
  "iso216_dim pw series n =
     ebind (iso216_exponent series n) (\<lambda>ex.
     ebind (pw (Decimal_of_int 2) ex) (\<lambda>p.
     dec_mul p (Decimal_of_int 1000)))"

definition iso216_format ::
  "(decimal \<Rightarrow> decimal \<Rightarrow> error + decimal) \<Rightarrow> char \<Rightarrow> int \<Rightarrow> error + format" where
  "iso216_format pw series sz =
     ebind (iso216_dim pw series sz) (\<lambda>height.
     ebind (iso216_dim pw series (sz + 1)) (\<lambda>width.
     Inr (width, height)))"

definition us_letter :: "error + format" where
  "us_letter =
     ebind (dec_mul (Finite False 85 (- 1)) INCH) (\<lambda>w.
     ebind (dec_mul (Decimal_of_int 14) INCH) (\<lambda>h.
     Inr (w, h)))"

definition FORMATS :: "string \<Rightarrow> (error + format) option" where
  "FORMATS k = (if k = ''us letter'' then Some us_letter else None)"

definition SYNONYMS :: "string \<Rightarrow> string option" where
  "SYNONYMS k = (if k = ''letter'' then Some ''us letter'' else None)"

text \<open>
  \<open>get_format\<close>.  The result \<open>Inr None\<close> is Python's \<open>None\<close> (no format recognised),
  \<open>Inl\<close> is an exception that leaves the function.
\<close>

definition explicit_stage :: "string \<Rightarrow> format option" where
  "explicit_stage s =
     (if CHR ''x'' \<in> set s then
        (case Decimal_of_str (takeWhile (\<lambda>c. c \<noteq> CHR ''x'') s) of
           None \<Rightarrow> None
         | Some width \<Rightarrow>
             (case Decimal_of_str (tl (dropWhile (\<lambda>c. c \<noteq> CHR ''x'') s)) of
                None \<Rightarrow> None
              | Some height \<Rightarrow> Some (width, height)))
      else None)"

definition named_stage :: "string \<Rightarrow> error + format option" where
  "named_stage s =
     (case FORMATS s of
        Some f \<Rightarrow> ebind f (\<lambda>v. Inr (Some v))
      | None \<Rightarrow>
          (case SYNONYMS s of
             Some k \<Rightarrow>
               (case FORMATS k of
                  Some f \<Rightarrow> ebind f (\<lambda>v. Inr (Some v))
                | None \<Rightarrow> Inl KeyError)
           | None \<Rightarrow> Inr None))"

fun iso_stage ::
  "(decimal \<Rightarrow> decimal \<Rightarrow> error + decimal) \<Rightarrow> string \<Rightarrow> string list \<Rightarrow> error + format option" where
  "iso_stage pw s [] = named_stage s"
| "iso_stage pw s (prefix # ps) =
     (if startswith s prefix then
        (case lstrip (drop (length prefix) s) of
           [] \<Rightarrow> iso_stage pw s ps
         | series # rest \<Rightarrow>
             (case py_int rest of
                None \<Rightarrow> iso_stage pw s ps
              | Some sz \<Rightarrow>
                  if series \<in> set ''abc'' \<and> 0 \<le> sz \<and> sz \<le> 10
                  then ebind (iso216_format pw series sz) (\<lambda>fmt. Inr (Some fmt))
                  else iso_stage pw s ps))
      else iso_stage pw s ps)"

definition prefixes :: "string list" where
  "prefixes = [''din-'', ''din'', ''iso 216'', ''iso216'', []]"

definition get_format ::
  "(decimal \<Rightarrow> decimal \<Rightarrow> error + decimal) \<Rightarrow> string \<Rightarrow> error + format option" where
  "get_format pw fmt_string =
     (let s = strip (lower fmt_string) in
      case explicit_stage s of
        Some f \<Rightarrow> Inr (Some f)
      | None \<Rightarrow> iso_stage pw s prefixes)"

section \<open>The page transform\<close>

text \<open>
  A number read from the document is a Python \<open>int\<close> or a \<open>Decimal\<close>.  The
  difference of two ints is an int; every other operation of \<open>scale\<close> has a
  \<open>Decimal\<close> operand, and the int operand is converted exactly.  Where the int is
  the left operand of \<open>+\<close> or \<open>*\<close>, Python calls the reflected method of the
  \<open>Decimal\<close> on the right.
\<close>

datatype pynum = PyInt int | PyDec decimal

fun to_dec :: "pynum \<Rightarrow> decimal" where
  "to_dec (PyInt i) = Decimal_of_int i"
| "to_dec (PyDec d) = d"

fun num_sub :: "pynum \<Rightarrow> pynum \<Rightarrow> error + pynum" where
  "num_sub (PyInt i) (PyInt j) = Inr (PyInt (i - j))"
| "num_sub a b = ebind (dec_sub (to_dec a) (to_dec b)) (\<lambda>d. Inr (PyDec d))"

fun num_add_dec :: "pynum \<Rightarrow> decimal \<Rightarrow> error + decimal" where
  "num_add_dec (PyInt i) d = dec_add d (Decimal_of_int i)"
| "num_add_dec (PyDec a) d = dec_add a d"

fun num_mul_dec :: "pynum \<Rightarrow> decimal \<Rightarrow> error + decimal" where
  "num_mul_dec (PyInt i) d = dec_mul d (Decimal_of_int i)"
| "num_mul_dec (PyDec a) d = dec_mul a d"

record box =
  llx :: pynum
  lly :: pynum
  urx :: pynum
  ury :: pynum

text \<open>
  The content stream is a list of instructions.  The only instruction the program
  builds is \<open>cm\<close> with the six operands of a matrix; every other instruction is opaque.
\<close>

datatype ('f, 'i) instr = Cm "'f \<times> 'f \<times> 'f \<times> 'f \<times> 'f \<times> 'f" | Other 'i

record ('f, 'i) page =
  mediabox :: box
  cropbox :: "box option"
  bleedbox :: "box option"
  trimbox :: "box option"
  artbox :: "box option"
  user_unit :: "pynum option"
  contents :: "('f, 'i) instr list"

subsection \<open>The matrix of the PDF library\<close>

text \<open>
  \<open>PdfMatrix\<close>: a 3x3 matrix of floats, the identity by default; \<open>scaled\<close> and
  \<open>translated\<close> multiply on the right by the matrices with shorthand
  \<open>(x, 0, 0, y, 0, 0)\<close> and \<open>(1, 0, 0, 1, x, y)\<close>, and \<open>shorthand\<close> reads the six
  entries \<open>(a, b, c, d, e, f)\<close> of the first two columns.  The float type is the
  parameter \<open>'f\<close>.
\<close>

type_synonym 'f matrix = "('f \<times> 'f \<times> 'f) \<times> ('f \<times> 'f \<times> 'f) \<times> ('f \<times> 'f \<times> 'f)"

definition PdfMatrix :: "'f::semiring_1 matrix" where
  "PdfMatrix = ((1, 0, 0), (0, 1, 0), (0, 0, 1))"

definition PdfMatrix6 :: "'f \<Rightarrow> 'f \<Rightarrow> 'f \<Rightarrow> 'f \<Rightarrow> 'f \<Rightarrow> 'f \<Rightarrow> 'f::semiring_1 matrix" where
  "PdfMatrix6 a b c d e f = ((a, b, 0), (c, d, 0), (e, f, 1))"

fun row_mul :: "'f \<times> 'f \<times> 'f \<Rightarrow> 'f::semiring_1 matrix \<Rightarrow> 'f \<times> 'f \<times> 'f" where
  "row_mul (r1, r2, r3) ((b11, b12, b13), (b21, b22, b23), (b31, b32, b33)) =
     (r1 * b11 + r2 * b21 + r3 * b31,
      r1 * b12 + r2 * b22 + r3 * b32,
      r1 * b13 + r2 * b23 + r3 * b33)"

fun matmul :: "'f::semiring_1 matrix \<Rightarrow> 'f matrix \<Rightarrow> 'f matrix" where
  "matmul (a1, a2, a3) b = (row_mul a1 b, row_mul a2 b, row_mul a3 b)"

definition scaled :: "'f::semiring_1 matrix \<Rightarrow> 'f \<Rightarrow> 'f \<Rightarrow> 'f matrix" where
  "scaled m x y = matmul m (PdfMatrix6 x 0 0 y 0 0)"

definition translated :: "'f::semiring_1 matrix \<Rightarrow> 'f \<Rightarrow> 'f \<Rightarrow> 'f matrix" where
  "translated m x y = matmul m (PdfMatrix6 1 0 0 1 x y)"

fun shorthand :: "'f matrix \<Rightarrow> 'f \<times> 'f \<times> 'f \<times> 'f \<times> 'f \<times> 'f" where
  "shorthand ((a, b, u), (c, d, v), (e, f, w)) = (a, b, c, d, e, f)"


subsection \<open>One page of \<open>scale\<close>\<close>

text \<open>
  \<open>page_geometry\<close> is the part of the loop body up to the test of the threshold:
  the target size in page units and the two differences.
\<close>

record geometry =
  fmt0 :: decimal
  fmt1 :: decimal
  width :: pynum
  height :: pynum
  x_diff :: decimal
  y_diff :: decimal

definition page_fmt :: "format \<Rightarrow> pynum option \<Rightarrow> error + format" where
  "page_fmt fmt_mm uu =
     (let user_unit = to_dec (case uu of None \<Rightarrow> PyInt 1 | Some u \<Rightarrow> u) in
      ebind PT (\<lambda>pt.
      ebind (dec_mul pt user_unit) (\<lambda>d0.
      ebind (dec_div (fst fmt_mm) d0) (\<lambda>f0.
      ebind (dec_mul pt user_unit) (\<lambda>d1.
      ebind (dec_div (snd fmt_mm) d1) (\<lambda>f1.
      Inr (f0, f1)))))))"

definition page_geometry :: "format \<Rightarrow> ('f, 'i) page \<Rightarrow> error + geometry" where
  "page_geometry fmt_mm p =
     ebind (page_fmt fmt_mm (user_unit p)) (\<lambda>fmt.
     let old_mediabox = mediabox p in
     ebind (num_sub (urx old_mediabox) (llx old_mediabox)) (\<lambda>w.
     ebind (num_sub (ury old_mediabox) (lly old_mediabox)) (\<lambda>h.
     ebind (dec_sub (to_dec w) (fst fmt)) (\<lambda>xd.
     ebind (dec_sub (to_dec h) (snd fmt)) (\<lambda>yd.
     Inr \<lparr>fmt0 = fst fmt, fmt1 = snd fmt, width = w, height = h,
          x_diff = xd, y_diff = yd\<rparr>)))))"

definition threshold :: decimal where
  "threshold = Decimal_of_int 1"

definition below_threshold :: "geometry \<Rightarrow> error + bool" where
  "below_threshold g =
     ebind (dec_abs (x_diff g)) (\<lambda>ax.
     ebind (dec_lt ax threshold) (\<lambda>bx.
     if bx then
       ebind (dec_abs (y_diff g)) (\<lambda>ay.
       dec_lt ay threshold)
     else Inr False))"

definition new_mediabox :: "box \<Rightarrow> geometry \<Rightarrow> error + box" where
  "new_mediabox old_mediabox g =
     ebind (dec_sub (to_dec (urx old_mediabox)) (x_diff g)) (\<lambda>nx.
     ebind (dec_sub (to_dec (ury old_mediabox)) (y_diff g)) (\<lambda>ny.
     Inr \<lparr>llx = llx old_mediabox, lly = lly old_mediabox, urx = PyDec nx, ury = PyDec ny\<rparr>))"

definition set_box :: "box option \<Rightarrow> box \<Rightarrow> box option" where
  "set_box b nb = (case b of None \<Rightarrow> None | Some old \<Rightarrow> Some nb)"

text \<open>The scale factor and the translation, by the branch \<open>x_diff > y_diff\<close>.\<close>

definition transform_params ::
  "box \<Rightarrow> box \<Rightarrow> geometry \<Rightarrow> error + decimal \<times> decimal \<times> decimal" where
  "transform_params old_mediabox nb g =
     ebind (dec_gt (x_diff g) (y_diff g)) (\<lambda>wide.
     if wide then
       ebind (dec_div (fmt0 g) (to_dec (width g))) (\<lambda>s.
       ebind (num_mul_dec (llx old_mediabox) s) (\<lambda>ox.
       ebind (dec_sub (to_dec (llx nb)) ox) (\<lambda>tx.
       ebind (num_mul_dec (height g) s) (\<lambda>hs.
       ebind (dec_sub (fmt1 g) hs) (\<lambda>gap.
       ebind (dec_div gap (Decimal_of_int 2)) (\<lambda>half.
       ebind (num_add_dec (lly nb) half) (\<lambda>cy.
       ebind (num_mul_dec (lly old_mediabox) s) (\<lambda>oy.
       ebind (dec_sub cy oy) (\<lambda>ty.
       Inr (s, tx, ty))))))))))
     else
       ebind (dec_div (fmt1 g) (to_dec (height g))) (\<lambda>s.
       ebind (num_mul_dec (width g) s) (\<lambda>ws.
       ebind (dec_sub (fmt0 g) ws) (\<lambda>gap.
       ebind (dec_div gap (Decimal_of_int 2)) (\<lambda>half.
       ebind (num_add_dec (llx nb) half) (\<lambda>cx.
       ebind (num_mul_dec (llx old_mediabox) s) (\<lambda>ox.
       ebind (dec_sub cx ox) (\<lambda>tx.
       ebind (num_mul_dec (lly old_mediabox) s) (\<lambda>oy.
       ebind (dec_sub (to_dec (lly nb)) oy) (\<lambda>ty.
       Inr (s, tx, ty)))))))))))"

text \<open>
  The body of the loop for one page.  \<open>Inr None\<close> is \<open>continue\<close>: the page is left
  as it is.  \<open>Inr (Some p')\<close> is the page after the body has run to its end.  The
  conversion of a \<open>Decimal\<close> to a float, done by the matrix constructor, is the
  parameter \<open>fl\<close>.
\<close>

definition scale_page ::
  "(decimal \<Rightarrow> 'f::semiring_1) \<Rightarrow> format \<Rightarrow> ('f, 'i) page \<Rightarrow> error + ('f, 'i) page option" where
  "scale_page fl fmt_mm p =
     ebind (page_geometry fmt_mm p) (\<lambda>g.
     ebind (below_threshold g) (\<lambda>small.
     if small then Inr None
     else
       let old_mediabox = mediabox p in
       ebind (new_mediabox old_mediabox g) (\<lambda>nb.
       ebind (transform_params old_mediabox nb g) (\<lambda>(s, tx, ty).
       let transform = translated (scaled PdfMatrix (fl s) (fl s)) (fl tx) (fl ty) in
       Inr (Some (p\<lparr>mediabox := nb,
                      cropbox := set_box (cropbox p) nb,
                      bleedbox := set_box (bleedbox p) nb,
                      trimbox := set_box (trimbox p) nb,
                      artbox := set_box (artbox p) nb,
                      contents := Cm (shorthand transform) # contents p\<rparr>))))))"


subsection \<open>Auxiliary predicates\<close>

text \<open>
  \<open>in_ctx d\<close>: the decimal \<open>d\<close> is representable in the context, that is, it is a
  special value or its coefficient has at most \<open>prec\<close> digits and its exponent lies in
  the range that \<open>fix_ctx\<close> leaves unchanged.
\<close>

fun in_ctx :: "decimal \<Rightarrow> bool" where
  "in_ctx (Finite s c e) =
     (Etiny \<le> e \<and> c < 10 ^ prec \<and>
      (if c = 0 then e \<le> Emax else int (ndigits c) + e \<le> Emax + 1))"
| "in_ctx _ = True"


text \<open>\<open>positive d\<close>: \<open>d\<close> is a finite number greater than zero.\<close>

fun positive :: "decimal \<Rightarrow> bool" where
  "positive (Finite s c e) = (\<not> s \<and> 0 < c)"
| "positive _ = False"

text \<open>The base exponents of the three ISO 216 series, as rational numbers.\<close>

definition iso216_base :: "char \<Rightarrow> rat" where
  "iso216_base series =
     (if series = CHR ''a'' then 1 / 4 else if series = CHR ''b'' then 1 / 2 else 3 / 8)"

subsection \<open>Example data\<close>


definition letter_mm :: format where
  "letter_mm = (Finite False 21590 (- 2), Finite False 3556 (- 1))"

definition example_page :: "(rat, nat) page" where
  "example_page =
     \<lparr>mediabox = \<lparr>llx = PyInt 0, lly = PyInt 0, urx = PyInt 595, ury = PyInt 842\<rparr>,
      cropbox = Some \<lparr>llx = PyInt 10, lly = PyInt 10, urx = PyInt 500, ury = PyInt 800\<rparr>,
      bleedbox = None, trimbox = None, artbox = None, user_unit = None,
      contents = [Other 7]\<rparr>"

definition example_box :: box where
  "example_box =
     \<lparr>llx = PyInt 0, lly = PyInt 0,
      urx = PyDec (Finite False 6120000000000000000000000000 (- 25)),
      ury = PyDec (Finite False 1008000000000000000000000000 (- 24))\<rparr>"

definition example_result :: "(rat, nat) page" where
  "example_result =
     \<lparr>mediabox = example_box, cropbox = Some example_box,
      bleedbox = None, trimbox = None, artbox = None, user_unit = None,
      contents =
        [Cm (1028571428571428571428571429 / 1000000000000000000000000000, 0, 0,
             1028571428571428571428571429 / 1000000000000000000000000000,
             0, 177428571428571428571428571 / 2500000000000000000000000),
         Other 7]\<rparr>"

section \<open>Properties of strings and of decimal literals\<close>

lemma rstrip_Nil [simp]: "rstrip [] = []" by (simp add: rstrip_def)

lemma rstrip_Cons: "rstrip (c # s) = (if rstrip s = [] \<and> is_space c then [] else c # rstrip s)"
  by (auto simp: rstrip_def dropWhile_append)

lemma lstrip_rstrip: "lstrip (rstrip s) = rstrip (lstrip s)"
  by (induction s) (auto simp: rstrip_Cons lstrip_def)

lemma lstrip_idem [simp]: "lstrip (lstrip s) = lstrip s"
  by (induction s) (auto simp: lstrip_def)

lemma rstrip_idem [simp]: "rstrip (rstrip s) = rstrip s"
  by (induction s) (auto simp: rstrip_Cons)

lemma strip_lstrip [simp]: "strip (lstrip s) = strip s"
  by (simp add: strip_def)

lemma strip_rstrip [simp]: "strip (rstrip s) = strip s"
  by (simp add: strip_def lstrip_rstrip)

lemma is_space_lower [simp]: "is_space (lower_char c) = is_space c"
  by (auto simp: is_space_def lower_char_def is_upper_def Let_def)

lemma not_digit_x: "\<not> is_digit CHR ''x''" by (simp add: is_digit_def)
lemma not_space_x: "\<not> is_space CHR ''x''" by (simp add: is_space_def)

lemma of_char_lower:
  "(of_char (lower_char c) :: nat) = (if is_upper c then of_char c + 32 else of_char c)"
  by (auto simp: lower_char_def is_upper_def Let_def)

lemma lower_char_eq_x: "(lower_char c = CHR ''x'') = (c = CHR ''x'' \<or> c = CHR ''X'')"
proof -
  have "(lower_char c = CHR ''x'') = ((of_char (lower_char c) :: nat) = of_char CHR ''x'')"
    by (simp only: of_char_eq_iff)
  also have "\<dots> = ((of_char c :: nat) = of_char CHR ''x'' \<or> (of_char c :: nat) = of_char CHR ''X'')"
    by (auto simp: of_char_lower is_upper_def Let_def)
  also have "\<dots> = (c = CHR ''x'' \<or> c = CHR ''X'')"
    by (simp only: of_char_eq_iff)
  finally show ?thesis .
qed

lemma lower_char_underscore [simp]: "(lower_char c = CHR ''_'') = (c = CHR ''_'')"
proof -
  have "(lower_char c = CHR ''_'') = ((of_char (lower_char c) :: nat) = of_char CHR ''_'')"
    by (simp only: of_char_eq_iff)
  also have "\<dots> = ((of_char c :: nat) = of_char CHR ''_'')"
    by (auto simp: of_char_lower is_upper_def Let_def)
  also have "\<dots> = (c = CHR ''_'')"
    by (simp only: of_char_eq_iff)
  finally show ?thesis .
qed

lemma lower_char_idem [simp]: "lower_char (lower_char c) = lower_char c"
  by (auto simp: lower_char_def is_upper_def Let_def)


lemma lstrip_lower: "lstrip (lower s) = lower (lstrip s)"
  by (simp add: lstrip_def lower_def dropWhile_map comp_def)

lemma rstrip_lower: "rstrip (lower s) = lower (rstrip s)"
  by (simp add: rstrip_def lower_def dropWhile_map comp_def rev_map)

lemma strip_lower: "strip (lower s) = lower (strip s)"
  by (simp add: strip_def lstrip_lower rstrip_lower)

lemma filter_lower:
  "filter (\<lambda>c. c \<noteq> CHR ''_'') (lower s) = lower (filter (\<lambda>c. c \<noteq> CHR ''_'') s)"
  by (simp add: lower_def filter_map comp_def)

lemma lower_idem [simp]: "lower (lower s) = lower s"
  by (simp add: lower_def)

lemma Decimal_of_str_lower [simp]: "Decimal_of_str (lower s) = Decimal_of_str s"
  by (simp add: Decimal_of_str_def strip_lower filter_lower)

lemma Decimal_of_str_lstrip [simp]: "Decimal_of_str (lstrip s) = Decimal_of_str s"
  by (simp add: Decimal_of_str_def)

lemma Decimal_of_str_rstrip [simp]: "Decimal_of_str (rstrip s) = Decimal_of_str s"
  by (simp add: Decimal_of_str_def)

lemma digits_no_x: "list_all is_digit u \<Longrightarrow> CHR ''x'' \<notin> set u"
  by (auto simp: list_all_iff not_digit_x)

lemma parse_exp_no_x: "parse_exp r = Some n \<Longrightarrow> CHR ''x'' \<notin> set r"
  by (auto simp: parse_exp_def not_digit_x split: list.splits if_splits dest: digits_no_x)

lemma takeWhile_digit_no_x: "CHR ''x'' \<notin> set (takeWhile is_digit r)"
  using not_digit_x by (auto dest: set_takeWhileD)

lemma parse_number_no_x:
  assumes "parse_number sg r = Some d"
  shows "CHR ''x'' \<notin> set r"
proof -
  define r1 where "r1 = dropWhile is_digit r"
  have r: "r = takeWhile is_digit r @ r1"
    by (simp add: r1_def)
  show ?thesis
  proof (cases "r1 \<noteq> [] \<and> hd r1 = CHR ''.''")
    case True
    then obtain t where t: "r1 = CHR ''.'' # t" by (cases r1) auto
    have t2: "t = takeWhile is_digit t @ dropWhile is_digit t" by simp
    from assms True t obtain n where "parse_exp (dropWhile is_digit t) = Some n"
      by (auto simp: parse_number_def Let_def r1_def split: option.splits if_splits)
    then have "CHR ''x'' \<notin> set (dropWhile is_digit t)" by (rule parse_exp_no_x)
    with t2 takeWhile_digit_no_x [of t] have "CHR ''x'' \<notin> set t"
      by (metis Un_iff set_append)
    with t have "CHR ''x'' \<notin> set r1" by simp
    with r takeWhile_digit_no_x [of r] show ?thesis
      by (metis Un_iff set_append)
  next
    case False
    with assms obtain n where "parse_exp r1 = Some n"
      by (auto simp: parse_number_def Let_def r1_def split: option.splits if_splits)
    then have "CHR ''x'' \<notin> set r1" by (rule parse_exp_no_x)
    with r takeWhile_digit_no_x [of r] show ?thesis
      by (metis Un_iff set_append)
  qed
qed

lemma take_drop_no_x:
  assumes "CHR ''x'' \<notin> set (take n r)" "CHR ''x'' \<notin> set (drop n r)"
  shows "CHR ''x'' \<notin> set r"
proof -
  have "set r = set (take n r) \<union> set (drop n r)"
    by (metis append_take_drop_id set_append)
  with assms show ?thesis by simp
qed

lemma parse_unsigned_no_x:
  assumes "parse_unsigned sg r = Some d"
  shows "CHR ''x'' \<notin> set r"
proof -
  consider "r = ''inf'' \<or> r = ''infinity''"
    | "take 3 r = ''nan'' \<and> list_all is_digit (drop 3 r)"
    | "take 4 r = ''snan'' \<and> list_all is_digit (drop 4 r)"
    | "parse_number sg r = Some d"
    using assms by (auto simp: parse_unsigned_def split: if_splits)
  then show ?thesis
  proof cases
    case 1 then show ?thesis by auto
  next
    case 2
    then have "CHR ''x'' \<notin> set (take 3 r)" "CHR ''x'' \<notin> set (drop 3 r)"
      by (auto dest: digits_no_x)
    then show ?thesis by (rule take_drop_no_x)
  next
    case 3
    then have "CHR ''x'' \<notin> set (take 4 r)" "CHR ''x'' \<notin> set (drop 4 r)"
      by (auto dest: digits_no_x)
    then show ?thesis by (rule take_drop_no_x)
  next
    case 4 then show ?thesis by (rule parse_number_no_x)
  qed
qed

lemma parse_signed_no_x: "parse_signed u = Some d \<Longrightarrow> CHR ''x'' \<notin> set u"
  by (auto simp: parse_signed_def split: list.splits if_splits dest: parse_unsigned_no_x)

lemma set_lstrip: "set s \<subseteq> set (lstrip s) \<union> {c. is_space c}"
proof -
  have "set s = set (takeWhile is_space s) \<union> set (dropWhile is_space s)"
    by (metis set_append takeWhile_dropWhile_id)
  then show ?thesis by (auto simp: lstrip_def dest: set_takeWhileD)
qed

lemma set_rstrip: "set s \<subseteq> set (rstrip s) \<union> {c. is_space c}"
proof -
  have "set (rev s) \<subseteq> set (lstrip (rev s)) \<union> {c. is_space c}" by (rule set_lstrip)
  then show ?thesis by (simp add: rstrip_def lstrip_def)
qed

lemma set_strip: "set s \<subseteq> set (strip s) \<union> {c. is_space c}"
  using set_lstrip [of s] set_rstrip [of "lstrip s"] by (auto simp: strip_def)

lemma Decimal_of_str_no_x:
  assumes "Decimal_of_str s = Some d"
  shows "CHR ''x'' \<notin> set (lower s)"
proof
  assume "CHR ''x'' \<in> set (lower s)"
  then obtain c where c: "c \<in> set s" "lower_char c = CHR ''x''"
    by (auto simp: lower_def)
  then have ns: "\<not> is_space c"
    by (metis is_space_lower not_space_x)
  with c set_strip [of s] have "c \<in> set (strip s)" by auto
  moreover from c have "c \<noteq> CHR ''_''" by (auto simp: lower_char_eq_x)
  ultimately have "c \<in> set (filter (\<lambda>c. c \<noteq> CHR ''_'') (strip s))" by simp
  with c have "CHR ''x'' \<in> set (lower (filter (\<lambda>c. c \<noteq> CHR ''_'') (strip s)))"
    by (force simp: lower_def)
  with assms parse_signed_no_x show False
    by (auto simp: Decimal_of_str_def)
qed

section \<open>Properties of the format resolver\<close>

subsection \<open>The explicit-dimensions stage\<close>

lemma lstrip_append_nonspace:
  "\<not> is_space c \<Longrightarrow> lstrip (a @ c # b) = lstrip a @ c # b"
  by (induction a) (auto simp: lstrip_def)

lemma rstrip_nonspace_Cons:
  "\<not> is_space c \<Longrightarrow> rstrip (c # b) = c # rstrip b"
  by (simp add: rstrip_Cons)

lemma rstrip_append_nonspace:
  "\<not> is_space c \<Longrightarrow> rstrip (a @ c # b) = a @ c # rstrip b"
  by (induction a) (auto simp: rstrip_Cons)

lemma strip_append_nonspace:
  "\<not> is_space c \<Longrightarrow> strip (a @ c # b) = lstrip a @ c # rstrip b"
  by (simp add: strip_def lstrip_append_nonspace rstrip_append_nonspace)

lemma explicit_stage_split:
  assumes "CHR ''x'' \<notin> set a"
  shows "explicit_stage (a @ CHR ''x'' # b) =
           (case Decimal_of_str a of
              None \<Rightarrow> None
            | Some w \<Rightarrow> (case Decimal_of_str b of None \<Rightarrow> None | Some h \<Rightarrow> Some (w, h)))"
proof -
  from assms have "takeWhile (\<lambda>c. c \<noteq> CHR ''x'') (a @ CHR ''x'' # b) = a"
    by (subst takeWhile_append2) auto
  moreover from assms have "dropWhile (\<lambda>c. c \<noteq> CHR ''x'') (a @ CHR ''x'' # b) = CHR ''x'' # b"
    by (subst dropWhile_append2) auto
  ultimately show ?thesis by (simp add: explicit_stage_def split: option.splits)
qed

lemma Decimal_of_str_with_x: "CHR ''x'' \<in> set b \<Longrightarrow> Decimal_of_str b = None"
proof (rule ccontr)
  assume x: "CHR ''x'' \<in> set b" and "Decimal_of_str b \<noteq> None"
  then obtain d where "Decimal_of_str b = Some d" by auto
  then have "CHR ''x'' \<notin> set (lower b)" by (rule Decimal_of_str_no_x)
  moreover from x have "lower_char CHR ''x'' \<in> set (lower b)" by (simp add: lower_def)
  moreover have "lower_char CHR ''x'' = CHR ''x''" by (simp add: lower_char_eq_x)
  ultimately show False by simp
qed

text \<open>
  Claim C6.  When \<open>W\<close> and \<open>H\<close> are strings that the decimal constructor accepts,
  the resolver applied to \<open>W\<close>, the letter \<open>x\<close> and \<open>H\<close> returns exactly the pair
  of the two constructed decimals: no unit conversion, no rounding.  The result comes
  from the explicit-dimensions stage itself, so neither the ISO 216 stage nor the
  table of names is consulted (the result does not depend on the power operator).
\<close>

theorem explicit_dimensions_verbatim:
  assumes "Decimal_of_str W = Some w" and "Decimal_of_str H = Some h"
  shows "explicit_stage (strip (lower (W @ ''x'' @ H))) = Some (w, h)
         \<and> get_format pw (W @ ''x'' @ H) = Inr (Some (w, h))"
proof -
  have nx: "CHR ''x'' \<notin> set (lstrip (lower W))"
  proof -
    from assms(1) have "CHR ''x'' \<notin> set (lower W)" by (rule Decimal_of_str_no_x)
    moreover have "set (lstrip (lower W)) \<subseteq> set (lower W)"
      by (auto simp: lstrip_def dest: set_dropWhileD)
    ultimately show ?thesis by auto
  qed
  have "lower (W @ ''x'' @ H) = lower W @ CHR ''x'' # lower H"
    by (simp add: lower_def lower_char_eq_x)
  then have "strip (lower (W @ ''x'' @ H)) = lstrip (lower W) @ CHR ''x'' # rstrip (lower H)"
    by (simp add: strip_append_nonspace not_space_x)
  moreover have "explicit_stage (lstrip (lower W) @ CHR ''x'' # rstrip (lower H)) = Some (w, h)"
    using assms by (simp add: explicit_stage_split [OF nx])
  ultimately have "explicit_stage (strip (lower (W @ ''x'' @ H))) = Some (w, h)" by simp
  then show ?thesis by (simp add: get_format_def)
qed

lemma Decimal_210: "Decimal_of_str ''210'' = Some (Finite False 210 0)" by code_simp
lemma Decimal_297: "Decimal_of_str ''297'' = Some (Finite False 297 0)" by code_simp

theorem explicit_dimensions_verbatim_witness:
  "Decimal_of_str ''210'' = Some (Finite False 210 0)
   \<and> Decimal_of_str ''297'' = Some (Finite False 297 0)
   \<and> get_format (\<lambda>x y. Inl Overflow) ''210x297'' = Inr (Some (Finite False 210 0, Finite False 297 0))"
  using explicit_dimensions_verbatim [OF Decimal_210 Decimal_297, of "\<lambda>x y. Inl Overflow"]
  by (simp add: Decimal_210 Decimal_297)

text \<open>
  Claim C10.  The explicit-dimensions stage splits the normalised string at its first
  \<open>x\<close> only: the part before it and the whole remainder are each given to the decimal
  constructor.  When the remainder holds another \<open>x\<close> it is not a decimal literal, the
  stage is abandoned without an error, and the result of the resolver is that of the
  ISO 216 stage followed by the table of names; for \<open>1x2x3\<close> no format is found.
\<close>

theorem explicit_stage_first_x_only:
  assumes "strip (lower s) = a @ CHR ''x'' # b" and "CHR ''x'' \<notin> set a"
  shows "explicit_stage (strip (lower s)) =
           (case Decimal_of_str a of
              None \<Rightarrow> None
            | Some w \<Rightarrow> (case Decimal_of_str b of None \<Rightarrow> None | Some h \<Rightarrow> Some (w, h)))
         \<and> (CHR ''x'' \<in> set b \<longrightarrow>
              Decimal_of_str b = None
              \<and> get_format pw s = iso_stage pw (strip (lower s)) prefixes)"
proof -
  have e: "explicit_stage (strip (lower s)) =
           (case Decimal_of_str a of
              None \<Rightarrow> None
            | Some w \<Rightarrow> (case Decimal_of_str b of None \<Rightarrow> None | Some h \<Rightarrow> Some (w, h)))"
    using assms by (simp add: explicit_stage_split)
  moreover have "get_format pw s = iso_stage pw (strip (lower s)) prefixes"
    if "CHR ''x'' \<in> set b"
  proof -
    from that have "Decimal_of_str b = None" by (rule Decimal_of_str_with_x)
    with e have "explicit_stage (strip (lower s)) = None" by (simp split: option.splits)
    then show ?thesis by (simp add: get_format_def)
  qed
  ultimately show ?thesis by (auto dest: Decimal_of_str_with_x)
qed

lemma normalise_1x2x3: "strip (lower ''1x2x3'') = ''1'' @ CHR ''x'' # ''2x3''" by code_simp
lemma normalise_1x2x3': "strip (lower ''1x2x3'') = ''1x2x3''" by code_simp
lemma iso_stage_1x2x3: "iso_stage pw ''1x2x3'' prefixes = Inr None"
  by (simp add: prefixes_def startswith_def lstrip_def is_space_def py_int_def strip_def rstrip_def
      int_unsigned_def is_digit_def named_stage_def FORMATS_def SYNONYMS_def)

theorem explicit_stage_first_x_only_witness:
  "strip (lower ''1x2x3'') = ''1'' @ CHR ''x'' # ''2x3''
   \<and> CHR ''x'' \<notin> set ''1'' \<and> CHR ''x'' \<in> set ''2x3''
   \<and> Decimal_of_str ''2x3'' = None
   \<and> get_format (\<lambda>x y. Inl Overflow) ''1x2x3'' = Inr None"
  using explicit_stage_first_x_only [OF normalise_1x2x3, of "\<lambda>x y. Inl Overflow"]
  by (simp add: iso_stage_1x2x3 normalise_1x2x3')

lemma normalise_nanxinf: "strip (lower ''nanxinf'') = ''nanxinf''"
  by code_simp

lemma explicit_stage_nanxinf:
  "explicit_stage ''nanxinf'' = Some (NaN False False 0, Infinity False)"
  by code_simp

text \<open>
  Claim C9.  The explicit-dimensions stage accepts the special literals of the decimal
  constructor: on the input \<open>nanxinf\<close> the resolver returns the pair of a quiet NaN
  and the positive infinity, not the absence of a format, so a format whose components
  are not finite numbers leaves the public interface.
\<close>

theorem get_format_nanxinf:
  "get_format pw ''nanxinf'' = Inr (Some (NaN False False 0, Infinity False))
   \<and> \<not> is_finite (NaN False False 0) \<and> \<not> is_finite (Infinity False)"
  by (simp add: get_format_def normalise_nanxinf explicit_stage_nanxinf)

section \<open>Properties of the decimal arithmetic\<close>

lemma ndigits_pos: "0 < ndigits n"
  by (subst ndigits.simps) simp

lemma ndigits_lt: "n < 10 ^ ndigits n"
proof (induction n rule: ndigits.induct)
  case (1 n)
  show ?case
  proof (cases "n < 10")
    case True
    then show ?thesis by (subst ndigits.simps) simp
  next
    case False
    with 1 have "n div 10 < 10 ^ ndigits (n div 10)" by simp
    then have "n < 10 * 10 ^ ndigits (n div 10)" by simp
    with False show ?thesis by (subst ndigits.simps) simp
  qed
qed

lemma ndigits_ge: "n \<noteq> 0 \<Longrightarrow> 10 ^ (ndigits n - 1) \<le> n"
proof (induction n rule: ndigits.induct)
  case (1 n)
  show ?case
  proof (cases "n < 10")
    case True
    with 1(2) show ?thesis by (subst ndigits.simps) simp
  next
    case False
    then have nz: "n div 10 \<noteq> 0" by simp
    with 1 False have "10 ^ (ndigits (n div 10) - 1) \<le> n div 10" by simp
    then have "10 * 10 ^ (ndigits (n div 10) - 1) \<le> n" by simp
    moreover have "ndigits n - 1 = Suc (ndigits (n div 10) - 1)"
      using False ndigits_pos [of "n div 10"] by (subst ndigits.simps) simp
    ultimately show ?thesis by simp
  qed
qed

lemma ndigits_le_iff: "0 < k \<Longrightarrow> (ndigits n \<le> k) = (n < 10 ^ k)"
proof
  assume "ndigits n \<le> k"
  then have "(10::nat) ^ ndigits n \<le> 10 ^ k" by (simp add: power_increasing)
  with ndigits_lt [of n] show "n < 10 ^ k" by (rule less_le_trans)
next
  assume k: "0 < k" and lt: "n < 10 ^ k"
  show "ndigits n \<le> k"
  proof (rule ccontr)
    assume "\<not> ndigits n \<le> k"
    then have gt: "k \<le> ndigits n - 1" by simp
    then have "ndigits n \<noteq> 1" using k by simp
    then have "n \<noteq> 0" by (subst (asm) ndigits.simps) (auto split: if_splits)
    then have "10 ^ (ndigits n - 1) \<le> n" by (rule ndigits_ge)
    moreover from gt have "(10::nat) ^ k \<le> 10 ^ (ndigits n - 1)" by (simp add: power_increasing)
    ultimately have "10 ^ k \<le> n" by (rule order_trans [rotated])
    with lt show False by simp
  qed
qed

lemma round_half_even_le: "round_half_even c k \<le> c div 10 ^ k + 1"
  by (simp add: round_half_even_def Let_def)

lemma div_pow_lt:
  assumes "c < 10 ^ n" "n \<le> k + m"
  shows "c div 10 ^ k < (10::nat) ^ m"
proof -
  have "c < 10 ^ (k + m)"
    using assms by (meson less_le_trans power_increasing one_le_numeral)
  then have "c < 10 ^ k * 10 ^ m" by (simp add: power_add)
  then show ?thesis by (simp add: less_mult_imp_div_less mult.commute)
qed

lemma fix_ctx_in_ctx:
  assumes "fix_ctx (Finite s c e) = Inr r"
  shows "in_ctx r"
proof (cases "c = 0")
  case True
  with assms show ?thesis
    by (auto simp: fix_ctx_def Etiny_def Emax_def Emin_def prec_def)
next
  case False
  define x0 where "x0 = int (ndigits c) + e - int prec"
  define x where "x = max x0 Etiny"
  from assms False have le: "x0 \<le> Etop"
    by (auto simp: fix_ctx_def Let_def x0_def split: if_splits)
  have EE: "Etiny \<le> Etop" "Etop \<le> Emax" by (simp_all add: Etiny_def Etop_def Emin_def Emax_def prec_def)
  show ?thesis
  proof (cases "e < x")
    case nr: False
    with assms False le have r: "r = Finite s c e"
      by (auto simp: fix_ctx_def Let_def x0_def x_def split: if_splits)
    from nr have "ndigits c \<le> prec" "Etiny \<le> e" by (auto simp: x_def x0_def)
    moreover then have "c < 10 ^ prec" using ndigits_le_iff [of prec c] by (simp add: prec_def)
    moreover from le have "int (ndigits c) + e \<le> Emax + 1"
      by (simp add: x0_def Etop_def prec_def)
    ultimately show ?thesis using r False by simp
  next
    case rd: True
    define k where "k = nat (x - e)"
    define q where "q = round_half_even c k"
    have xle: "x \<le> Etop" "Etiny \<le> x" using le EE by (auto simp: x_def)
    have "int (ndigits c) \<le> int k + int prec"
      using rd by (auto simp: k_def x_def x0_def)
    then have "ndigits c \<le> k + prec" by linarith
    with ndigits_lt [of c] have "c div 10 ^ k < 10 ^ prec" by (rule div_pow_lt)
    with round_half_even_le [of c k] have qle: "q \<le> 10 ^ prec" by (simp add: q_def)
    show ?thesis
    proof (cases "ndigits q > prec")
      case True
      with assms False le rd have r: "r = Finite s (q div 10) (x + 1)" and x1: "x + 1 \<le> Etop"
        by (auto simp: fix_ctx_def Let_def x0_def x_def q_def k_def split: if_splits)
      from qle have "q div 10 \<le> 10 ^ prec div 10" by (rule div_le_mono)
      then have lt: "q div 10 < 10 ^ prec" by (simp add: prec_def)
      then have "ndigits (q div 10) \<le> prec" using ndigits_le_iff [of prec "q div 10"] by (simp add: prec_def)
      with x1 have "int (ndigits (q div 10)) + (x + 1) \<le> Emax + 1"
        by (simp add: Etop_def)
      with r lt xle x1 EE show ?thesis by auto
    next
      case nd: False
      with assms False le rd have r: "r = Finite s q x"
        by (auto simp: fix_ctx_def Let_def x0_def x_def q_def k_def split: if_splits)
      from nd have n28: "ndigits q \<le> prec" by simp
      then have "q < 10 ^ prec" using ndigits_le_iff [of prec q] by (simp add: prec_def)
      moreover from n28 xle have "int (ndigits q) + x \<le> Emax + 1" by (simp add: Etop_def)
      ultimately show ?thesis using r xle EE by auto
    qed
  qed
qed


lemma in_ctx_fix_nan [simp]: "is_nan d \<Longrightarrow> in_ctx (fix_nan d)"
  by (cases d) (auto simp: fix_nan_def)

lemma check_nans_in_ctx: "check_nans a b = Some (Inr r) \<Longrightarrow> in_ctx r"
  by (auto simp: check_nans_def split: if_splits)




lemma dec_mul_in_ctx: "dec_mul a b = Inr r \<Longrightarrow> in_ctx r"
  by (cases a; cases b)
     (auto simp: dec_mul_def Let_def split: option.splits if_splits
           dest: check_nans_in_ctx fix_ctx_in_ctx)

lemma div_finite_in_ctx: "div_finite sg c1 e1 c2 e2 = Inr r \<Longrightarrow> in_ctx r"
  by (auto simp: div_finite_def Let_def split: if_splits prod.splits dest: fix_ctx_in_ctx)

lemma dec_div_in_ctx: "dec_div a b = Inr r \<Longrightarrow> in_ctx r"
  by (cases a; cases b)
     (auto simp: dec_div_def Let_def Etiny_def Emin_def Emax_def prec_def
           split: option.splits if_splits
           dest: check_nans_in_ctx div_finite_in_ctx)






lemma val_threshold: "val threshold = 1"
  by (simp add: threshold_def Decimal_of_int_def)








section \<open>Properties of the page transform\<close>

lemma ebind_Inr_iff: "(ebind m f = Inr r) = (\<exists>x. m = Inr x \<and> f x = Inr r)"
  by (cases m) (simp_all add: ebind_def)

lemma ebind_Inr [simp]: "ebind (Inr x) f = f x"
  by (simp add: ebind_def)

lemma ebind_Inl [simp]: "ebind (Inl e) f = Inl e"
  by (simp add: ebind_def)

lemma shorthand_transform:
  "shorthand (translated (scaled PdfMatrix a a) x y) = (a, 0, 0, a, x, y)"
  by (simp add: translated_def scaled_def PdfMatrix_def PdfMatrix6_def)

lemma scale_page_cases:
  assumes "page_geometry fmt_mm p = Inr g"
  shows "scale_page fl fmt_mm p =
     ebind (below_threshold g) (\<lambda>small.
     if small then Inr None
     else
       ebind (new_mediabox (mediabox p) g) (\<lambda>nb.
       ebind (transform_params (mediabox p) nb g) (\<lambda>(s, tx, ty).
       Inr (Some (p\<lparr>mediabox := nb,
                      cropbox := set_box (cropbox p) nb,
                      bleedbox := set_box (bleedbox p) nb,
                      trimbox := set_box (trimbox p) nb,
                      artbox := set_box (artbox p) nb,
                      contents := Cm (fl s, 0, 0, fl s, fl tx, fl ty) # contents p\<rparr>)))))"
  using assms by (simp add: scale_page_def Let_def shorthand_transform cong: if_cong)


lemma scale_page_geometry_Inl:
  "page_geometry fmt_mm p = Inl e \<Longrightarrow> scale_page fl fmt_mm p = Inl e"
  by (simp add: scale_page_def)


text \<open>
  Claim C3.  When the body of the loop runs to its end on a page, the new media box
  keeps the lower left corner of the old one and its upper right corner is the old one
  minus \<open>x_diff\<close> and \<open>y_diff\<close>; each of the crop, bleed, trim and art boxes that the
  page has is set to the new media box, and a box that the page does not have stays
  absent.
\<close>

theorem resized_boxes:
  assumes "scale_page fl fmt_mm p = Inr (Some q)"
  shows "\<exists>g nx ny.
           page_geometry fmt_mm p = Inr g
         \<and> dec_sub (to_dec (urx (mediabox p))) (x_diff g) = Inr nx
         \<and> dec_sub (to_dec (ury (mediabox p))) (y_diff g) = Inr ny
         \<and> mediabox q = \<lparr>llx = llx (mediabox p), lly = lly (mediabox p),
                          urx = PyDec nx, ury = PyDec ny\<rparr>
         \<and> cropbox q = (if cropbox p = None then None else Some (mediabox q))
         \<and> bleedbox q = (if bleedbox p = None then None else Some (mediabox q))
         \<and> trimbox q = (if trimbox p = None then None else Some (mediabox q))
         \<and> artbox q = (if artbox p = None then None else Some (mediabox q))"
proof -
  from assms obtain g where g: "page_geometry fmt_mm p = Inr g"
    by (cases "page_geometry fmt_mm p") (auto simp: scale_page_geometry_Inl)
  from assms obtain nb s tx ty where
    nb: "new_mediabox (mediabox p) g = Inr nb" and
    q: "q = p\<lparr>mediabox := nb,
              cropbox := set_box (cropbox p) nb,
              bleedbox := set_box (bleedbox p) nb,
              trimbox := set_box (trimbox p) nb,
              artbox := set_box (artbox p) nb,
              contents := Cm (fl s, 0, 0, fl s, fl tx, fl ty) # contents p\<rparr>"
    unfolding scale_page_cases [OF g]
    by (auto simp: ebind_Inr_iff split: if_splits)
  from nb obtain nx ny where
    "dec_sub (to_dec (urx (mediabox p))) (x_diff g) = Inr nx"
    "dec_sub (to_dec (ury (mediabox p))) (y_diff g) = Inr ny"
    "nb = \<lparr>llx = llx (mediabox p), lly = lly (mediabox p), urx = PyDec nx, ury = PyDec ny\<rparr>"
    by (auto simp: new_mediabox_def ebind_Inr_iff)
  with g q show ?thesis
    by (auto simp: set_box_def split: option.splits)
qed



lemmas dec_eval =
  ndigits.simps strip_zeros.simps fix_ctx_def fix_nan_def round_half_even_def
  dec_div_def div_finite_def dec_mul_def dec_add_def add_finite_def normalize_ops_def
  dec_sub_def dec_abs_def dec_lt_def dec_gt_def dec_cmp_def signed_coeff_def sgn3_def
  check_nans_def check_nans1_def prec_def Etiny_def Etop_def Emax_def Emin_def
  Let_def Decimal_of_int_def INCH_def threshold_def

lemma ebind_weak_cong: "m = m' \<Longrightarrow> ebind m f = ebind m' f"
  by simp

lemma d72: "dec_div (Decimal_of_int 1) (Decimal_of_int 72) = Inr (Finite False 1388888888888888888888888889 (- 29))"
  by (simp add: dec_eval)

lemma PT_value: "PT = Inr (Finite False 3527777777777777777777777778 (- 28))"
  by (simp add: PT_def d72 dec_eval cong: ebind_weak_cong)



lemma page_fmt_letter:
  "page_fmt letter_mm None = Inr (Finite False 6120000000000000000000000000 (- 25),
                                  Finite False 1008000000000000000000000000 (- 24))"
  by (simp add: page_fmt_def letter_mm_def PT_value dec_eval cong: ebind_weak_cong)


lemma geometry_letter:
  "page_geometry letter_mm example_page =
     Inr \<lparr>fmt0 = Finite False 6120000000000000000000000000 (- 25),
          fmt1 = Finite False 1008000000000000000000000000 (- 24),
          width = PyInt 595, height = PyInt 842,
          x_diff = Finite True 170000000000000000000000000 (- 25),
          y_diff = Finite True 166000000000000000000000000 (- 24)\<rparr>"
  by (simp add: page_geometry_def example_page_def page_fmt_letter dec_eval cong: ebind_weak_cong)


lemma example_letter: "scale_page val letter_mm example_page = Inr (Some example_result)"
  unfolding scale_page_cases [OF geometry_letter]
  by (simp add: below_threshold_def new_mediabox_def set_box_def
      transform_params_def example_page_def example_result_def example_box_def dec_eval
      cong: ebind_weak_cong)


theorem resized_boxes_witness:
  "scale_page val letter_mm example_page = Inr (Some example_result)
   \<and> (\<exists>g nx ny.
           page_geometry letter_mm example_page = Inr g
         \<and> dec_sub (to_dec (urx (mediabox example_page))) (x_diff g) = Inr nx
         \<and> dec_sub (to_dec (ury (mediabox example_page))) (y_diff g) = Inr ny
         \<and> mediabox example_result =
               \<lparr>llx = llx (mediabox example_page), lly = lly (mediabox example_page),
                urx = PyDec nx, ury = PyDec ny\<rparr>
         \<and> cropbox example_result =
               (if cropbox example_page = None then None else Some (mediabox example_result))
         \<and> bleedbox example_result =
               (if bleedbox example_page = None then None else Some (mediabox example_result))
         \<and> trimbox example_result =
               (if trimbox example_page = None then None else Some (mediabox example_result))
         \<and> artbox example_result =
               (if artbox example_page = None then None else Some (mediabox example_result)))"
  using example_letter resized_boxes [OF example_letter] by (rule conjI)


end
